theory Spec2Isabelle
  imports Main "HOL-Library.Char_ord" "HOL-Library.List_Lexorder" "HOL-Library.Multiset"
begin

section \<open>The project resolver of \<^verbatim>\<open>.ci/compute_projects.py\<close>\<close>

text \<open>
  The module computes, from the list of changed files and a platform name, the projects
  and runtimes to build and the check targets to run. Its module-level constants are
  elided in the source (the comment at line 8 stands for them), so they are a parameter
  of every function here: the record \<open>tables\<close>.

  Python values are modelled as follows.
  \<^item> \<open>str\<close> is \<open>string\<close>; comparison of strings (\<open>sorted\<close>) is the lexicographic order
    of \<open>HOL-Library.List_Lexorder\<close> over the character codes of \<open>HOL-Library.Char_ord\<close>.
  \<^item> A \<open>set\<close> of the computation is a \<open>string set\<close>. Python fixes no iteration order
    for a set, so every place that iterates a set takes the order from a parameter
    \<open>it\<close> of type \<open>set_order\<close>, which lists the members of a set.
  \<^item> A constant \<open>dict\<close> is the list of its items in insertion order (keys distinct, as
    the items of a dict are), looked up with \<open>map_of\<close>; a constant \<open>set\<close> or \<open>list\<close>
    is the list of its elements.
  \<^item> An uncaught exception is the left summand of the result.
\<close>

subsection \<open>Constants of the module\<close>

record tables =
  PROJECT_DEPENDENCIES :: "(string \<times> string list) list"
  DEPENDENTS_TO_TEST :: "(string \<times> string list) list"
  DEPENDENT_RUNTIMES_TO_BUILD :: "(string \<times> string list) list"
  DEPENDENT_RUNTIMES_TO_TEST :: "(string \<times> string list) list"
  DEPENDENT_RUNTIMES_TO_TEST_NEEDS_RECONFIG :: "(string \<times> string list) list"
  PROJECT_CHECK_TARGETS :: "(string \<times> string) list"
  EXCLUDE_LINUX :: "string list"
  EXCLUDE_WINDOWS :: "string list"
  EXCLUDE_MAC :: "string list"
  EXCLUDE_DEPENDENTS_WINDOWS :: "string list"
  RUNTIMES :: "string list"
  META_PROJECTS :: "(string list \<times> string) list"
  SKIP_PROJECTS :: "string list"
  SKIP_BUILD_PROJECTS :: "string list"

datatype error = IndexError

type_synonym set_order = "string set \<Rightarrow> string list"

text \<open>An iteration order is admissible when it lists every member of a finite set once.\<close>

definition valid_order :: "set_order \<Rightarrow> bool" where
  "valid_order it \<longleftrightarrow> (\<forall>S. finite S \<longrightarrow> set (it S) = S \<and> distinct (it S))"

subsection \<open>\<^verbatim>\<open>ProjectConfiguration.__init__\<close>\<close>

text \<open>
  The attributes set by the constructor (lines 13 to 24). Six of them name a constant;
  \<open>exclusions\<close> is a dict literal with three keys.
\<close>

definition dependencies :: "tables \<Rightarrow> (string \<times> string list) list" where
  "dependencies K = PROJECT_DEPENDENCIES K"

definition dependents :: "tables \<Rightarrow> (string \<times> string list) list" where
  "dependents K = DEPENDENTS_TO_TEST K"

definition runtime_deps :: "tables \<Rightarrow> (string \<times> string list) list" where
  "runtime_deps K = DEPENDENT_RUNTIMES_TO_BUILD K"

definition test_runtimes :: "tables \<Rightarrow> (string \<times> string list) list" where
  "test_runtimes K = DEPENDENT_RUNTIMES_TO_TEST K"

definition test_runtimes_reconfig :: "tables \<Rightarrow> (string \<times> string list) list" where
  "test_runtimes_reconfig K = DEPENDENT_RUNTIMES_TO_TEST_NEEDS_RECONFIG K"

definition check_targets :: "tables \<Rightarrow> (string \<times> string) list" where
  "check_targets K = PROJECT_CHECK_TARGETS K"

definition exclusions :: "tables \<Rightarrow> (string \<times> string list) list" where
  "exclusions K =
     [(''Linux'', EXCLUDE_LINUX K), (''Windows'', EXCLUDE_WINDOWS K), (''Darwin'', EXCLUDE_MAC K)]"

subsection \<open>Library functions\<close>

text \<open>\<^verbatim>\<open>sep.join(xs)\<close>.\<close>

fun join :: "string \<Rightarrow> string list \<Rightarrow> string" where
  "join sep [] = []"
| "join sep [x] = x"
| "join sep (x # y # ys) = x @ sep @ join sep (y # ys)"

text \<open>\<^verbatim>\<open>s.split(c)\<close> for a one-character separator: never empty, one piece more than
  there are separators.\<close>

fun split_on :: "char \<Rightarrow> string \<Rightarrow> string list" where
  "split_on c [] = [[]]"
| "split_on c (x # xs) =
     (if x = c then [] # split_on c xs
      else (case split_on c xs of [] \<Rightarrow> [[x]] | w # ws \<Rightarrow> (x # w) # ws))"

text \<open>
  \<^verbatim>\<open>pathlib.Path(p).parts\<close> in the POSIX flavour: \<^verbatim>\<open>posixpath.splitroot\<close> takes a
  root off the front (one slash, or exactly two), the rest is split at slashes, and
  empty pieces and \<^verbatim>\<open>.\<close> pieces are dropped. The root, when there is one, is the first
  part.
\<close>

definition splitroot :: "string \<Rightarrow> string \<times> string" where
  "splitroot p =
     (if take 1 p \<noteq> ''/'' then ([], p)
      else if take 1 (drop 1 p) \<noteq> ''/'' \<or> take 1 (drop 2 p) = ''/'' then (''/'', drop 1 p)
      else (take 2 p, drop 2 p))"

definition parts :: "string \<Rightarrow> string list" where
  "parts p =
     (let (root, rel) = splitroot p;
          tail = filter (\<lambda>x. x \<noteq> [] \<and> x \<noteq> ''.'') (split_on CHR ''/'' rel)
      in if root \<noteq> [] then root # tail else tail)"

subsection \<open>\<^verbatim>\<open>_path_matches\<close> (lines 110 to 120)\<close>

text \<open>The loop over \<^verbatim>\<open>zip(matcher, file_path)\<close>, with both tests of its body.\<close>

fun path_matches_loop :: "(string \<times> string) list \<Rightarrow> bool" where
  "path_matches_loop [] = True"
| "path_matches_loop ((match_part, file_part) # rest) =
     (if match_part \<in> set [''*'', file_part] then path_matches_loop rest
      else if match_part \<noteq> file_part then False
      else path_matches_loop rest)"

definition path_matches :: "string list \<Rightarrow> string list \<Rightarrow> bool" where
  "path_matches matcher file_path =
     (if length file_path < length matcher then False
      else path_matches_loop (zip matcher file_path))"

subsection \<open>\<^verbatim>\<open>_get_modified_projects_for_file\<close> (lines 96 to 108)\<close>

text \<open>
  The loop over \<^verbatim>\<open>META_PROJECTS.items()\<close> either leaves the function with a value
  (\<open>Returned\<close>, the early \<^verbatim>\<open>return set()\<close>) or runs to its end (\<open>Completed\<close>) with the
  set collected so far.
\<close>

datatype loop_exit = Returned "string set" | Completed "string set"

fun meta_projects_loop ::
  "tables \<Rightarrow> string list \<Rightarrow> (string list \<times> string) list \<Rightarrow> string set \<Rightarrow> loop_exit" where
  "meta_projects_loop K path_parts [] modified_projects = Completed modified_projects"
| "meta_projects_loop K path_parts ((meta_path, meta_project) # rest) modified_projects =
     (if path_matches meta_path path_parts then
        (if meta_project \<in> set (SKIP_PROJECTS K) then Returned {}
         else meta_projects_loop K path_parts rest (insert meta_project modified_projects))
      else meta_projects_loop K path_parts rest modified_projects)"

text \<open>\<^verbatim>\<open>path_parts[0]\<close> raises \<^verbatim>\<open>IndexError\<close> on the empty tuple.\<close>

definition get_modified_projects_for_file :: "tables \<Rightarrow> string \<Rightarrow> error + string set" where
  "get_modified_projects_for_file K modified_file =
     (let path_parts = parts modified_file in
      case meta_projects_loop K path_parts (META_PROJECTS K) {} of
        Returned r \<Rightarrow> Inr r
      | Completed modified_projects \<Rightarrow>
          (case path_parts of
             [] \<Rightarrow> Inl IndexError
           | first # _ \<Rightarrow> Inr (insert first modified_projects)))"

subsection \<open>\<^verbatim>\<open>get_modified_projects\<close> (lines 122 to 129)\<close>

fun get_modified_projects_loop ::
  "tables \<Rightarrow> string list \<Rightarrow> string set \<Rightarrow> error + string set" where
  "get_modified_projects_loop K [] modified_projects = Inr modified_projects"
| "get_modified_projects_loop K (modified_file # rest) modified_projects =
     (case get_modified_projects_for_file K modified_file of
        Inl e \<Rightarrow> Inl e
      | Inr ps \<Rightarrow> get_modified_projects_loop K rest (modified_projects \<union> ps))"

definition get_modified_projects :: "tables \<Rightarrow> string list \<Rightarrow> error + string set" where
  "get_modified_projects K modified_files = get_modified_projects_loop K modified_files {}"

subsection \<open>\<^verbatim>\<open>_exclude_platform_projects\<close> (lines 43 to 45)\<close>

definition exclude_platform_projects :: "tables \<Rightarrow> string set \<Rightarrow> string \<Rightarrow> string set" where
  "exclude_platform_projects K projects platform_name =
     projects - (case map_of (exclusions K) platform_name of None \<Rightarrow> {} | Some ex \<Rightarrow> set ex)"

subsection \<open>\<^verbatim>\<open>_compute_projects_to_test\<close> (lines 47 to 64)\<close>

fun projects_to_test_loop :: "tables \<Rightarrow> string \<Rightarrow> string list \<Rightarrow> string set \<Rightarrow> string set" where
  "projects_to_test_loop K platform_name [] projects_to_test = projects_to_test"
| "projects_to_test_loop K platform_name (project # rest) projects_to_test =
     (if project \<in> set (RUNTIMES K) then
        projects_to_test_loop K platform_name rest projects_to_test
      else
        (let with_project =
               (if project \<in> dom (map_of (check_targets K))
                then insert project projects_to_test else projects_to_test);
             with_dependents =
               (case map_of (dependents K) project of
                  None \<Rightarrow> with_project
                | Some ds \<Rightarrow>
                    (let dependents =
                           (if platform_name = ''Windows''
                            then set ds - set (EXCLUDE_DEPENDENTS_WINDOWS K) else set ds)
                     in with_project \<union> dependents))
         in projects_to_test_loop K platform_name rest with_dependents))"

definition compute_projects_to_test ::
  "set_order \<Rightarrow> tables \<Rightarrow> string set \<Rightarrow> string \<Rightarrow> string set" where
  "compute_projects_to_test it K modified_projects platform_name =
     exclude_platform_projects K
       (projects_to_test_loop K platform_name (it modified_projects) {}) platform_name"

subsection \<open>The runtime sets (lines 66 to 94)\<close>

text \<open>
  Four loops of the module have one body: for each project that is a key of a table,
  update the set with the table's entry.
\<close>

fun update_loop :: "(string \<times> string list) list \<Rightarrow> string list \<Rightarrow> string set \<Rightarrow> string set" where
  "update_loop tbl [] acc = acc"
| "update_loop tbl (project # rest) acc =
     (case map_of tbl project of
        None \<Rightarrow> update_loop tbl rest acc
      | Some entry \<Rightarrow> update_loop tbl rest (acc \<union> set entry))"

definition compute_runtimes_to_test ::
  "set_order \<Rightarrow> tables \<Rightarrow> string set \<Rightarrow> string \<Rightarrow> string set" where
  "compute_runtimes_to_test it K modified_projects platform_name =
     exclude_platform_projects K
       (update_loop (test_runtimes K) (it modified_projects) {}) platform_name"

definition compute_runtimes_to_test_needs_reconfig ::
  "set_order \<Rightarrow> tables \<Rightarrow> string set \<Rightarrow> string \<Rightarrow> string set" where
  "compute_runtimes_to_test_needs_reconfig it K modified_projects platform_name =
     exclude_platform_projects K
       (update_loop (test_runtimes_reconfig K) (it modified_projects) {}) platform_name"

definition compute_runtimes_to_build ::
  "set_order \<Rightarrow> tables \<Rightarrow> string set \<Rightarrow> string set \<Rightarrow> string \<Rightarrow> string set" where
  "compute_runtimes_to_build it K runtimes_to_test modified_projects platform_name =
     exclude_platform_projects K
       (update_loop (runtime_deps K) (it modified_projects) runtimes_to_test) platform_name"

subsection \<open>\<^verbatim>\<open>_add_dependencies\<close> (lines 26 to 41)\<close>

text \<open>
  The \<^verbatim>\<open>while\<close> loop compares the count before a pass with the size after it; a pass
  iterates a snapshot (\<^verbatim>\<open>list(projects_with_deps)\<close>) of the set.
\<close>

function add_dependencies_while ::
  "set_order \<Rightarrow> tables \<Rightarrow> nat \<Rightarrow> string set \<Rightarrow> string set" where
  "add_dependencies_while it K current_count projects_with_deps =
     (if current_count \<noteq> card projects_with_deps then
        add_dependencies_while it K (card projects_with_deps)
          (update_loop (dependencies K) (it projects_with_deps) projects_with_deps)
      else projects_with_deps)"
  by pat_completeness auto
termination
proof (relation "measure (\<lambda>(it, K, c, S).
         2 * card (\<Union>(set ` snd ` set (dependencies K)) - S) + (if c \<noteq> card S then 1 else 0))")
  show "wf (measure (\<lambda>(it, K, c, S).
         2 * card (\<Union>(set ` snd ` set (dependencies K)) - S) + (if c \<noteq> card S then 1 else 0)))"
    by simp
next
  fix it :: set_order and K :: tables and current_count :: nat and S :: "string set"
  assume neq: "current_count \<noteq> card S"
  define R where "R = \<Union>(set ` snd ` set (dependencies K))"
  define S' where "S' = update_loop (dependencies K) (it S) S"
  have bounds: "acc \<subseteq> update_loop (dependencies K) xs acc
                \<and> update_loop (dependencies K) xs acc \<subseteq> acc \<union> R" for xs acc
  proof (induction xs arbitrary: acc)
    case Nil
    show ?case by simp
  next
    case (Cons p ps)
    show ?case
    proof (cases "map_of (dependencies K) p")
      case None
      then show ?thesis using Cons.IH [of acc] by simp
    next
      case (Some entry)
      then have "(p, entry) \<in> set (dependencies K)" by (rule map_of_SomeD)
      then have "set entry \<subseteq> R" unfolding R_def by force
      then show ?thesis using Some Cons.IH [of "acc \<union> set entry"] by auto
    qed
  qed
  have finR: "finite R" unfolding R_def by simp
  have sub: "S \<subseteq> S'" and sup: "S' \<subseteq> S \<union> R"
    using bounds [of S "it S"] unfolding S'_def by auto
  have le: "card (R - S') \<le> card (R - S)"
    using sub finR by (intro card_mono) auto
  have "2 * card (R - S') + (if card S \<noteq> card S' then 1 else 0) < 2 * card (R - S) + 1"
  proof (cases "card S = card S'")
    case True
    then show ?thesis using le by simp
  next
    case False
    then have "S \<noteq> S'" by auto
    then obtain x where x: "x \<in> S'" "x \<notin> S" using sub by auto
    then have "x \<in> R" using sup by auto
    then have "R - S' \<subset> R - S" using x sub by auto
    then have "card (R - S') < card (R - S)"
      using finR by (intro psubset_card_mono) auto
    then show ?thesis by simp
  qed
  then show "((it, K, card S, update_loop (dependencies K) (it S) S), (it, K, current_count, S))
        \<in> measure (\<lambda>(it, K, c, S).
            2 * card (\<Union>(set ` snd ` set (dependencies K)) - S) + (if c \<noteq> card S then 1 else 0))"
    using neq unfolding R_def S'_def by simp
qed

text \<open>The equation of the loop unfolds without end, so it is used by hand.\<close>

declare add_dependencies_while.simps [simp del]

definition add_dependencies ::
  "set_order \<Rightarrow> tables \<Rightarrow> string set \<Rightarrow> string set \<Rightarrow> string set" where
  "add_dependencies it K projects runtimes =
     (let projects_with_deps = add_dependencies_while it K 0 projects
      in update_loop (dependencies K) (it runtimes) projects_with_deps)"

subsection \<open>\<^verbatim>\<open>get_env_variables\<close> (lines 131 to 162)\<close>

text \<open>The loop of lines 146 and 147.\<close>

fun discard_loop :: "string list \<Rightarrow> string set \<Rightarrow> string set" where
  "discard_loop [] projects_to_build = projects_to_build"
| "discard_loop (project # rest) projects_to_build =
     discard_loop rest (projects_to_build - {project})"

text \<open>
  The local variables of \<^verbatim>\<open>get_env_variables\<close> when it reaches its \<^verbatim>\<open>return\<close>
  statement (line 149).
\<close>

record selection =
  projects_to_test :: "string set"
  runtimes_to_test :: "string set"
  runtimes_to_test_reconfig :: "string set"
  runtimes_to_build :: "string set"
  projects_to_build :: "string set"

definition select_projects ::
  "set_order \<Rightarrow> tables \<Rightarrow> string list \<Rightarrow> string \<Rightarrow> error + selection" where
  "select_projects it K modified_files platform_name =
     (case get_modified_projects K modified_files of
        Inl e \<Rightarrow> Inl e
      | Inr modified_projects \<Rightarrow>
          (let ptt = compute_projects_to_test it K modified_projects platform_name;
               rtt = compute_runtimes_to_test it K modified_projects platform_name;
               rttr = compute_runtimes_to_test_needs_reconfig it K modified_projects platform_name;
               rtb = compute_runtimes_to_build it K (rtt \<union> rttr) modified_projects platform_name;
               ptb = add_dependencies it K ptt rtb;
               ptb = discard_loop (SKIP_BUILD_PROJECTS K) ptb
           in Inr \<lparr>projects_to_test = ptt, runtimes_to_test = rtt,
                    runtimes_to_test_reconfig = rttr, runtimes_to_build = rtb,
                    projects_to_build = ptb\<rparr>))"

text \<open>The generator of lines 152, 156 and 159, sorted and joined.\<close>

definition render_check_targets :: "set_order \<Rightarrow> tables \<Rightarrow> string set \<Rightarrow> string" where
  "render_check_targets it K ps =
     join '' ''
       (sort (map (\<lambda>p. the (map_of (check_targets K) p))
                (filter (\<lambda>p. p \<in> dom (map_of (check_targets K))) (it ps))))"

text \<open>The dict returned at line 149, as the list of its items.\<close>

definition render :: "set_order \<Rightarrow> tables \<Rightarrow> selection \<Rightarrow> (string \<times> string) list" where
  "render it K s =
     [(''projects_to_build'', join '';'' (sort (it (projects_to_build s)))),
      (''project_check_targets'', render_check_targets it K (projects_to_test s)),
      (''runtimes_to_build'', join '';'' (sort (it (runtimes_to_build s)))),
      (''runtimes_check_targets'', render_check_targets it K (runtimes_to_test s)),
      (''runtimes_check_targets_needs_reconfig'',
         render_check_targets it K (runtimes_to_test_reconfig s)),
      (''enable_cir'', if ''CIR'' \<in> projects_to_build s then ''ON'' else ''OFF'')]"

definition get_env_variables ::
  "set_order \<Rightarrow> tables \<Rightarrow> string list \<Rightarrow> string \<Rightarrow> error + (string \<times> string) list" where
  "get_env_variables it K modified_files platform_name =
     (case select_projects it K modified_files platform_name of
        Inl e \<Rightarrow> Inl e
      | Inr s \<Rightarrow> Inr (render it K s))"

section \<open>Specification-level notions\<close>

text \<open>The Dependency Graph as a relation: \<open>(p, d)\<close> when \<open>d\<close> is in the entry of \<open>p\<close>.\<close>

definition dep_rel :: "tables \<Rightarrow> (string \<times> string) set" where
  "dep_rel K = {(p, d). \<exists>entry. map_of (dependencies K) p = Some entry \<and> d \<in> set entry}"

text \<open>The union of the entries that a table has for the members of a set.\<close>

definition table_entries :: "(string \<times> string list) list \<Rightarrow> string set \<Rightarrow> string set" where
  "table_entries tbl S = (\<Union>p\<in>S. case map_of tbl p of None \<Rightarrow> {} | Some entry \<Rightarrow> set entry)"

text \<open>The exclusion set of a platform; empty for a name that is not a key.\<close>

definition excluded :: "tables \<Rightarrow> string \<Rightarrow> string set" where
  "excluded K platform_name =
     (case map_of (exclusions K) platform_name of None \<Rightarrow> {} | Some ex \<Rightarrow> set ex)"

text \<open>What one modified project that is not a runtime contributes to the projects to test.\<close>

definition triggered_tests :: "tables \<Rightarrow> string \<Rightarrow> string \<Rightarrow> string set" where
  "triggered_tests K platform_name p =
     (if p \<in> dom (map_of (check_targets K)) then {p} else {}) \<union>
     (case map_of (dependents K) p of
        None \<Rightarrow> {}
      | Some ds \<Rightarrow>
          if platform_name = ''Windows'' then set ds - set (EXCLUDE_DEPENDENTS_WINDOWS K)
          else set ds)"

text \<open>The five sets of a selection as set algebra over the modified projects.\<close>

definition selection_of :: "tables \<Rightarrow> string set \<Rightarrow> string \<Rightarrow> selection" where
  "selection_of K M platform_name =
     (let ex = excluded K platform_name;
          ptt = (\<Union>p \<in> M - set (RUNTIMES K). triggered_tests K platform_name p) - ex;
          rtt = table_entries (test_runtimes K) M - ex;
          rttr = table_entries (test_runtimes_reconfig K) M - ex;
          rtb = (rtt \<union> rttr \<union> table_entries (runtime_deps K) M) - ex;
          ptb = ((dep_rel K)\<^sup>* `` ptt \<union> dep_rel K `` rtb) - set (SKIP_BUILD_PROJECTS K)
      in \<lparr>projects_to_test = ptt, runtimes_to_test = rtt, runtimes_to_test_reconfig = rttr,
            runtimes_to_build = rtb, projects_to_build = ptb\<rparr>)"

text \<open>
  The matching rule in the words of the specification: the path has at least as many
  segments as the pattern, and every pattern segment equals the path segment at its
  position or is the wildcard.
\<close>

definition spec_matches :: "string list \<Rightarrow> string list \<Rightarrow> bool" where
  "spec_matches pattern path \<longleftrightarrow>
     length pattern \<le> length path \<and>
     (\<forall>i < length pattern. pattern ! i = path ! i \<or> pattern ! i = ''*'')"

text \<open>
  The rendering of a check-target set in the words of the specification: the targets of
  the members that have one, in ascending order of the \<^emph>\<open>project\<close> names.
\<close>

definition spec_check_targets_by_project :: "tables \<Rightarrow> string set \<Rightarrow> string" where
  "spec_check_targets_by_project K ps =
     join '' ''
       (map (\<lambda>p. the (map_of (check_targets K) p))
          (filter (\<lambda>p. p \<in> dom (map_of (check_targets K))) (sorted_list_of_set ps)))"

text \<open>
  The same rendering with the targets put in ascending order of the \<^emph>\<open>target\<close> names.
\<close>

definition check_targets_by_target :: "tables \<Rightarrow> string set \<Rightarrow> string" where
  "check_targets_by_target K ps =
     join '' ''
       (sort (map (\<lambda>p. the (map_of (check_targets K) p))
          (filter (\<lambda>p. p \<in> dom (map_of (check_targets K))) (sorted_list_of_set ps))))"

text \<open>The tables with every platform exclusion emptied.\<close>

definition without_exclusions :: "tables \<Rightarrow> tables" where
  "without_exclusions K =
     K\<lparr>EXCLUDE_LINUX := [], EXCLUDE_WINDOWS := [], EXCLUDE_MAC := [],
       EXCLUDE_DEPENDENTS_WINDOWS := []\<rparr>"

section \<open>Example tables\<close>

text \<open>
  A small instance of the constants, in the shape that the module's tests expect of
  them: \<^verbatim>\<open>compiler-rt\<close> and \<^verbatim>\<open>flang-rt\<close> are runtimes that test themselves, \<^verbatim>\<open>CIR\<close> is
  reached through a meta path, and documentation and GN files are skipped.
\<close>

definition example_tables :: tables where
  "example_tables =
     \<lparr>PROJECT_DEPENDENCIES =
        [(''llvm'', []), (''clang'', [''llvm'']), (''lld'', [''llvm'']), (''mlir'', [''llvm'']),
         (''CIR'', [''clang'', ''mlir'']), (''compiler-rt'', [''clang'', ''lld'']),
         (''flang'', [''llvm'', ''clang'']), (''flang-rt'', [''flang''])],
      DEPENDENTS_TO_TEST =
        [(''llvm'', [''clang'', ''lld'', ''mlir'', ''flang'']),
         (''clang'', [''cross-project-tests''])],
      DEPENDENT_RUNTIMES_TO_BUILD = [(''lldb'', [''libcxx''])],
      DEPENDENT_RUNTIMES_TO_TEST =
        [(''clang'', [''compiler-rt'']), (''compiler-rt'', [''compiler-rt'']),
         (''flang'', [''flang-rt'']), (''flang-rt'', [''flang-rt''])],
      DEPENDENT_RUNTIMES_TO_TEST_NEEDS_RECONFIG =
        [(''llvm'', [''libcxx'']), (''clang'', [''libcxx''])],
      PROJECT_CHECK_TARGETS =
        [(''llvm'', ''check-llvm''), (''clang'', ''check-clang''), (''lld'', ''check-lld''),
         (''mlir'', ''check-mlir''), (''CIR'', ''check-clang-cir''),
         (''compiler-rt'', ''check-compiler-rt''), (''libcxx'', ''check-cxx''),
         (''flang'', ''check-flang''), (''flang-rt'', ''check-flang-rt'')],
      EXCLUDE_LINUX = [''cross-project-tests''],
      EXCLUDE_WINDOWS = [''cross-project-tests'', ''compiler-rt'', ''libcxx'', ''flang-rt''],
      EXCLUDE_MAC = [''cross-project-tests'', ''compiler-rt'', ''libcxx'', ''flang''],
      EXCLUDE_DEPENDENTS_WINDOWS = [''flang''],
      RUNTIMES = [''libcxx'', ''compiler-rt'', ''flang-rt''],
      META_PROJECTS =
        [([''clang'', ''lib'', ''CIR''], ''CIR''), ([''*'', ''docs''], ''docs''),
         ([''llvm'', ''utils'', ''gn''], ''gn'')],
      SKIP_PROJECTS = [''docs'', ''gn''],
      SKIP_BUILD_PROJECTS = [''lit'']\<rparr>"

section \<open>Properties of the loops\<close>

lemma update_loop_eq: "update_loop tbl xs acc = acc \<union> table_entries tbl (set xs)"
  by (induction xs arbitrary: acc) (auto simp: table_entries_def split: option.splits)

lemma discard_loop_eq: "discard_loop xs S = S - set xs"
  by (induction xs arbitrary: S) auto

lemma finite_table_entries: "finite S \<Longrightarrow> finite (table_entries tbl S)"
  by (auto simp: table_entries_def split: option.splits)

lemma table_entries_mono: "A \<subseteq> B \<Longrightarrow> table_entries tbl A \<subseteq> table_entries tbl B"
  by (auto simp: table_entries_def)

lemma table_entries_dep_rel: "table_entries (dependencies K) S = dep_rel K `` S"
  by (fastforce simp: table_entries_def dep_rel_def split: option.splits)

lemma path_matches_loop_iff:
  "path_matches_loop zs \<longleftrightarrow> (\<forall>(m, f) \<in> set zs. m = f \<or> m = ''*'')"
  by (induction zs rule: path_matches_loop.induct) auto

lemma path_matches_iff: "path_matches matcher file_path \<longleftrightarrow> spec_matches matcher file_path"
  unfolding path_matches_def spec_matches_def path_matches_loop_iff
  by (auto simp: set_zip)

lemma meta_projects_loop_skip:
  "(mp, proj) \<in> set metas \<Longrightarrow> path_matches mp ps \<Longrightarrow> proj \<in> set (SKIP_PROJECTS K)
   \<Longrightarrow> meta_projects_loop K ps metas acc = Returned {}"
  by (induction metas arbitrary: acc) auto

lemma meta_projects_loop_noskip:
  "(\<forall>(mp, proj) \<in> set metas. path_matches mp ps \<longrightarrow> proj \<notin> set (SKIP_PROJECTS K))
   \<Longrightarrow> meta_projects_loop K ps metas acc =
       Completed (acc \<union> {proj. \<exists>mp. (mp, proj) \<in> set metas \<and> path_matches mp ps})"
  by (induction metas arbitrary: acc) auto

lemma meta_projects_loop_finite:
  "finite acc \<Longrightarrow> meta_projects_loop K ps metas acc = Completed r \<Longrightarrow> finite r"
proof (induction metas arbitrary: acc)
  case Nil
  then show ?case by simp
next
  case (Cons m metas)
  obtain mp proj where m: "m = (mp, proj)" by (cases m)
  show ?case
    using Cons.prems Cons.IH [of acc] Cons.IH [of "insert proj acc"]
    by (auto simp: m split: if_splits)
qed

lemma meta_projects_loop_Returned:
  "meta_projects_loop K ps metas acc = Returned r \<Longrightarrow> r = {}"
proof (induction metas arbitrary: acc)
  case Nil
  then show ?case by simp
next
  case (Cons m metas)
  obtain mp proj where m: "m = (mp, proj)" by (cases m)
  show ?case
    using Cons.prems Cons.IH [of acc] Cons.IH [of "insert proj acc"]
    by (auto simp: m split: if_splits)
qed

lemma for_file_finite: "get_modified_projects_for_file K f = Inr s \<Longrightarrow> finite s"
  unfolding get_modified_projects_for_file_def Let_def
  by (auto split: loop_exit.splits list.splits dest: meta_projects_loop_finite [rotated] meta_projects_loop_Returned)

lemma exclude_platform_projects_eq:
  "exclude_platform_projects K S plat = S - excluded K plat"
  by (simp add: exclude_platform_projects_def excluded_def)

lemma get_modified_projects_loop_eq:
  "get_modified_projects_loop K fs acc =
     (if \<exists>f \<in> set fs. isl (get_modified_projects_for_file K f) then Inl IndexError
      else Inr (acc \<union> (\<Union>f \<in> set fs. projr (get_modified_projects_for_file K f))))"
proof (induction fs arbitrary: acc)
  case Nil
  show ?case by simp
next
  case (Cons f fs)
  show ?case
  proof (cases "get_modified_projects_for_file K f")
    case (Inl e)
    then show ?thesis by (cases e) simp
  next
    case (Inr ps)
    then show ?thesis using Cons.IH [of "acc \<union> ps"] by auto
  qed
qed

lemma get_modified_projects_eq:
  "get_modified_projects K fs =
     (if \<exists>f \<in> set fs. isl (get_modified_projects_for_file K f) then Inl IndexError
      else Inr (\<Union>f \<in> set fs. projr (get_modified_projects_for_file K f)))"
  by (simp add: get_modified_projects_def get_modified_projects_loop_eq)

lemma get_modified_projects_finite:
  assumes "get_modified_projects K fs = Inr M"
  shows "finite M"
proof -
  have none: "\<forall>f \<in> set fs. \<not> isl (get_modified_projects_for_file K f)"
    and M: "M = (\<Union>f \<in> set fs. projr (get_modified_projects_for_file K f))"
    using assms unfolding get_modified_projects_eq by (auto split: if_splits)
  have "finite (projr (get_modified_projects_for_file K f))" if mem: "f \<in> set fs" for f
  proof -
    obtain s where s: "get_modified_projects_for_file K f = Inr s"
      using none mem by (cases "get_modified_projects_for_file K f") auto
    then show ?thesis using for_file_finite [OF s] by simp
  qed
  then show ?thesis unfolding M by simp
qed

lemma projects_to_test_loop_Cons:
  "projects_to_test_loop K plat (p # xs) acc =
     (if p \<in> set (RUNTIMES K) then projects_to_test_loop K plat xs acc
      else projects_to_test_loop K plat xs (acc \<union> triggered_tests K plat p))"
proof -
  have "(if p \<in> dom (map_of (check_targets K)) then insert p acc else acc) \<union> X
        = acc \<union> ((if p \<in> dom (map_of (check_targets K)) then {p} else {}) \<union> X)" for X
    by auto
  then show ?thesis
    by (cases "map_of (dependents K) p") (simp_all add: triggered_tests_def Let_def)
qed

lemma projects_to_test_loop_eq:
  "projects_to_test_loop K plat xs acc =
     acc \<union> (\<Union>p \<in> set xs - set (RUNTIMES K). triggered_tests K plat p)"
proof (induction xs arbitrary: acc)
  case Nil
  show ?case by simp
next
  case (Cons p xs)
  show ?case
    unfolding projects_to_test_loop_Cons using Cons.IH by auto
qed

lemma valid_orderD:
  "valid_order it \<Longrightarrow> finite S \<Longrightarrow> set (it S) = S"
  "valid_order it \<Longrightarrow> finite S \<Longrightarrow> distinct (it S)"
  by (simp_all add: valid_order_def)

lemma valid_order_sorted_list_of_set: "valid_order sorted_list_of_set"
  by (simp add: valid_order_def)

lemma valid_order_rev: "valid_order (rev \<circ> sorted_list_of_set)"
  by (simp add: valid_order_def)

lemma Range_dep_rel: "Range (dep_rel K) \<subseteq> \<Union>(set ` snd ` set (dependencies K))"
proof
  fix d assume "d \<in> Range (dep_rel K)"
  then obtain p entry where "map_of (dependencies K) p = Some entry" "d \<in> set entry"
    by (auto simp: dep_rel_def)
  then have "(p, entry) \<in> set (dependencies K)" "d \<in> set entry"
    by (auto dest: map_of_SomeD)
  then show "d \<in> \<Union>(set ` snd ` set (dependencies K))" by force
qed

lemma finite_Range_dep_rel: "finite (Range (dep_rel K))"
  by (rule finite_subset [OF Range_dep_rel]) simp

lemma finite_dep_rel_Image: "finite (dep_rel K `` S)"
  by (rule finite_subset [OF _ finite_Range_dep_rel]) auto

lemma rtrancl_Image_subset: "r\<^sup>* `` X \<subseteq> X \<union> Range r"
proof
  fix y assume "y \<in> r\<^sup>* `` X"
  then obtain x where "x \<in> X" "(x, y) \<in> r\<^sup>*" by auto
  then show "y \<in> X \<union> Range r"
    by (auto elim: rtranclE)
qed

lemma finite_dep_closure: "finite S \<Longrightarrow> finite ((dep_rel K)\<^sup>* `` S)"
  by (rule finite_subset [OF rtrancl_Image_subset]) (simp add: finite_Range_dep_rel)

lemma rtrancl_Image_step: "r\<^sup>* `` (S \<union> r `` S) = r\<^sup>* `` S"
proof
  show "r\<^sup>* `` (S \<union> r `` S) \<subseteq> r\<^sup>* `` S"
    by (auto intro: converse_rtrancl_into_rtrancl)
  show "r\<^sup>* `` S \<subseteq> r\<^sup>* `` (S \<union> r `` S)"
    by auto
qed

lemma update_loop_dependencies:
  "valid_order it \<Longrightarrow> finite S \<Longrightarrow>
   update_loop (dependencies K) (it S) acc = acc \<union> dep_rel K `` S"
  by (simp add: update_loop_eq table_entries_dep_rel valid_orderD)

lemma add_dependencies_while_eq:
  "valid_order it \<Longrightarrow> finite S \<Longrightarrow> (c = card S \<longrightarrow> dep_rel K `` S \<subseteq> S) \<Longrightarrow>
   add_dependencies_while it K c S = (dep_rel K)\<^sup>* `` S"
proof (induction it K c S rule: add_dependencies_while.induct)
  case (1 it K c S)
  let ?S' = "update_loop (dependencies K) (it S) S"
  have S': "?S' = S \<union> dep_rel K `` S"
    using "1.prems" by (simp add: update_loop_dependencies)
  show ?case
  proof (cases "c = card S")
    case True
    then have "dep_rel K `` S \<subseteq> S" using "1.prems" by simp
    then have "(dep_rel K)\<^sup>* `` S = S" by (rule Image_closed_trancl)
    then show ?thesis using True by (subst add_dependencies_while.simps) simp
  next
    case False
    have fin': "finite ?S'" unfolding S' using "1.prems" by (simp add: finite_dep_rel_Image)
    have inv: "card S = card ?S' \<longrightarrow> dep_rel K `` ?S' \<subseteq> ?S'"
    proof
      assume eq: "card S = card ?S'"
      have "S \<subseteq> ?S'" unfolding S' by simp
      then have "S = ?S'" using fin' eq by (simp add: card_subset_eq)
      then show "dep_rel K `` ?S' \<subseteq> ?S'" using S' by auto
    qed
    have "add_dependencies_while it K (card S) ?S' = (dep_rel K)\<^sup>* `` ?S'"
      using "1.IH" [OF False "1.prems"(1) fin' inv] .
    also have "\<dots> = (dep_rel K)\<^sup>* `` S" unfolding S' by (rule rtrancl_Image_step)
    finally show ?thesis using False by (subst add_dependencies_while.simps) simp
  qed
qed

lemma add_dependencies_eq:
  assumes "valid_order it" "finite P" "finite R"
  shows "add_dependencies it K P R = (dep_rel K)\<^sup>* `` P \<union> dep_rel K `` R"
proof -
  have "0 = card P \<longrightarrow> dep_rel K `` P \<subseteq> P" using assms(2) by auto
  then have "add_dependencies_while it K 0 P = (dep_rel K)\<^sup>* `` P"
    using assms by (intro add_dependencies_while_eq)
  then show ?thesis
    using assms by (simp add: add_dependencies_def update_loop_dependencies)
qed

lemma sort_valid_order:
  assumes "valid_order it" "finite S"
  shows "sort (it S) = sorted_list_of_set S"
proof -
  have "sorted_list_of_set (set (it S)) = sort (remdups (it S))"
    by (rule sorted_list_of_set_sort_remdups)
  then show ?thesis using assms by (simp add: valid_orderD distinct_remdups_id)
qed

lemma sort_cong_mset: "mset xs = mset ys \<Longrightarrow> sort xs = sort ys"
  by (rule properties_for_sort) simp_all

lemma mset_valid_order:
  assumes "valid_order it" "finite S"
  shows "mset (it S) = mset_set S"
  using assms mset_set_set [of "it S"] by (simp add: valid_orderD)

lemma render_check_targets_eq:
  assumes "valid_order it" "finite S"
  shows "render_check_targets it K S = render_check_targets sorted_list_of_set K S"
proof -
  have "mset (it S) = mset (sorted_list_of_set S)"
    using assms by (simp add: mset_valid_order valid_order_sorted_list_of_set)
  then have "mset (map f (filter P (it S))) = mset (map f (filter P (sorted_list_of_set S)))"
    for f :: "string \<Rightarrow> string" and P
    by (simp only: mset_map mset_filter)
  then have "sort (map f (filter P (it S))) = sort (map f (filter P (sorted_list_of_set S)))"
    for f :: "string \<Rightarrow> string" and P
    by (rule sort_cong_mset)
  then show ?thesis unfolding render_check_targets_def by (rule arg_cong)
qed

lemma finite_triggered_tests: "finite (triggered_tests K plat p)"
  by (simp add: triggered_tests_def split: option.splits)

lemma compute_projects_to_test_eq:
  "valid_order it \<Longrightarrow> finite M \<Longrightarrow>
   compute_projects_to_test it K M plat =
     (\<Union>p \<in> M - set (RUNTIMES K). triggered_tests K plat p) - excluded K plat"
  by (simp add: compute_projects_to_test_def exclude_platform_projects_eq
      projects_to_test_loop_eq valid_orderD)

lemma compute_runtimes_to_test_eq:
  "valid_order it \<Longrightarrow> finite M \<Longrightarrow>
   compute_runtimes_to_test it K M plat = table_entries (test_runtimes K) M - excluded K plat"
  by (simp add: compute_runtimes_to_test_def exclude_platform_projects_eq
      update_loop_eq valid_orderD)

lemma compute_runtimes_to_test_needs_reconfig_eq:
  "valid_order it \<Longrightarrow> finite M \<Longrightarrow>
   compute_runtimes_to_test_needs_reconfig it K M plat =
     table_entries (test_runtimes_reconfig K) M - excluded K plat"
  by (simp add: compute_runtimes_to_test_needs_reconfig_def exclude_platform_projects_eq
      update_loop_eq valid_orderD)

lemma compute_runtimes_to_build_eq:
  "valid_order it \<Longrightarrow> finite M \<Longrightarrow>
   compute_runtimes_to_build it K R M plat =
     (R \<union> table_entries (runtime_deps K) M) - excluded K plat"
  by (simp add: compute_runtimes_to_build_def exclude_platform_projects_eq
      update_loop_eq valid_orderD)

lemma finite_selection_of:
  assumes "finite M"
  shows "finite (projects_to_test (selection_of K M plat))"
    and "finite (runtimes_to_test (selection_of K M plat))"
    and "finite (runtimes_to_test_reconfig (selection_of K M plat))"
    and "finite (runtimes_to_build (selection_of K M plat))"
    and "finite (projects_to_build (selection_of K M plat))"
  using assms
  by (simp_all add: selection_of_def Let_def finite_triggered_tests finite_table_entries
      finite_dep_closure finite_dep_rel_Image)

lemma select_projects_eq:
  assumes "valid_order it"
  shows "select_projects it K files plat =
     (case get_modified_projects K files of
        Inl e \<Rightarrow> Inl e
      | Inr M \<Rightarrow> Inr (selection_of K M plat))"
proof (cases "get_modified_projects K files")
  case (Inl e)
  then show ?thesis by (simp add: select_projects_def)
next
  case (Inr M)
  then have fin: "finite M" by (rule get_modified_projects_finite)
  have f1: "finite ((\<Union>p \<in> M - set (RUNTIMES K). triggered_tests K plat p) - excluded K plat)"
    using fin by (simp add: finite_triggered_tests)
  have f2: "finite ((table_entries (test_runtimes K) M - excluded K plat \<union>
        (table_entries (test_runtimes_reconfig K) M - excluded K plat) \<union>
        table_entries (runtime_deps K) M) - excluded K plat)"
    using fin by (simp add: finite_table_entries)
  show ?thesis
    using assms fin Inr f1 f2
    by (simp add: select_projects_def selection_of_def Let_def compute_projects_to_test_eq
        compute_runtimes_to_test_eq compute_runtimes_to_test_needs_reconfig_eq
        compute_runtimes_to_build_eq add_dependencies_eq discard_loop_eq)
qed

lemma select_projects_finite:
  assumes "valid_order it" "select_projects it K files plat = Inr s"
  shows "finite (projects_to_test s)" "finite (runtimes_to_test s)"
    "finite (runtimes_to_test_reconfig s)" "finite (runtimes_to_build s)"
    "finite (projects_to_build s)"
proof -
  obtain M where M: "get_modified_projects K files = Inr M" and s: "s = selection_of K M plat"
    using assms by (auto simp: select_projects_eq split: sum.splits)
  have "finite M" using M by (rule get_modified_projects_finite)
  then show "finite (projects_to_test s)" "finite (runtimes_to_test s)"
    "finite (runtimes_to_test_reconfig s)" "finite (runtimes_to_build s)"
    "finite (projects_to_build s)"
    unfolding s by (rule finite_selection_of)+
qed

lemma render_eq:
  assumes "valid_order it" "finite (projects_to_test s)" "finite (runtimes_to_test s)"
    "finite (runtimes_to_test_reconfig s)" "finite (runtimes_to_build s)"
    "finite (projects_to_build s)"
  shows "render it K s = render sorted_list_of_set K s"
  using assms
  by (simp add: render_def sort_valid_order render_check_targets_eq [of it]
      valid_order_sorted_list_of_set)

section \<open>Properties of the selection\<close>

lemma get_modified_projects_mono:
  assumes "set files \<subseteq> set files'" and "get_modified_projects K files' = Inr M'"
  shows "\<exists>M. get_modified_projects K files = Inr M \<and> M \<subseteq> M'"
proof -
  have none': "\<forall>f \<in> set files'. \<not> isl (get_modified_projects_for_file K f)"
    and M': "M' = (\<Union>f \<in> set files'. projr (get_modified_projects_for_file K f))"
    using assms(2) unfolding get_modified_projects_eq by (auto split: if_splits)
  have none: "\<forall>f \<in> set files. \<not> isl (get_modified_projects_for_file K f)"
    using none' assms(1) by auto
  then have "get_modified_projects K files =
      Inr (\<Union>f \<in> set files. projr (get_modified_projects_for_file K f))"
    unfolding get_modified_projects_eq by simp
  moreover have "(\<Union>f \<in> set files. projr (get_modified_projects_for_file K f)) \<subseteq> M'"
    unfolding M' using assms(1) by auto
  ultimately show ?thesis by blast
qed

lemma selection_of_mono:
  assumes "M \<subseteq> M'"
  shows "projects_to_test (selection_of K M plat) \<subseteq> projects_to_test (selection_of K M' plat)"
    and "runtimes_to_test (selection_of K M plat) \<subseteq> runtimes_to_test (selection_of K M' plat)"
    and "runtimes_to_test_reconfig (selection_of K M plat)
          \<subseteq> runtimes_to_test_reconfig (selection_of K M' plat)"
    and "runtimes_to_build (selection_of K M plat) \<subseteq> runtimes_to_build (selection_of K M' plat)"
    and "projects_to_build (selection_of K M plat) \<subseteq> projects_to_build (selection_of K M' plat)"
proof -
  have t: "table_entries tbl M \<subseteq> table_entries tbl M'" for tbl
    using assms by (rule table_entries_mono)
  have ptt: "(\<Union>p \<in> M - set (RUNTIMES K). triggered_tests K plat p) - excluded K plat
      \<subseteq> (\<Union>p \<in> M' - set (RUNTIMES K). triggered_tests K plat p) - excluded K plat"
    using assms by auto
  have rtb: "(table_entries (test_runtimes K) M - excluded K plat \<union>
         (table_entries (test_runtimes_reconfig K) M - excluded K plat) \<union>
         table_entries (runtime_deps K) M) - excluded K plat
      \<subseteq> (table_entries (test_runtimes K) M' - excluded K plat \<union>
         (table_entries (test_runtimes_reconfig K) M' - excluded K plat) \<union>
         table_entries (runtime_deps K) M') - excluded K plat"
    using t [of "test_runtimes K"] t [of "test_runtimes_reconfig K"] t [of "runtime_deps K"]
    by blast
  show "projects_to_test (selection_of K M plat) \<subseteq> projects_to_test (selection_of K M' plat)"
    using ptt by (simp add: selection_of_def Let_def)
  show "runtimes_to_test (selection_of K M plat) \<subseteq> runtimes_to_test (selection_of K M' plat)"
    using t [of "test_runtimes K"] by (auto simp: selection_of_def Let_def)
  show "runtimes_to_test_reconfig (selection_of K M plat)
          \<subseteq> runtimes_to_test_reconfig (selection_of K M' plat)"
    using t [of "test_runtimes_reconfig K"] by (auto simp: selection_of_def Let_def)
  show "runtimes_to_build (selection_of K M plat) \<subseteq> runtimes_to_build (selection_of K M' plat)"
    using rtb by (simp add: selection_of_def Let_def)
  have "(dep_rel K)\<^sup>* `` A \<union> dep_rel K `` B \<subseteq> (dep_rel K)\<^sup>* `` A' \<union> dep_rel K `` B'"
    if "A \<subseteq> A'" "B \<subseteq> B'" for A A' B B'
    using that by blast
  from this [OF ptt rtb]
  show "projects_to_build (selection_of K M plat) \<subseteq> projects_to_build (selection_of K M' plat)"
    by (simp add: selection_of_def Let_def) blast
qed

lemma add_dependencies_while_cong:
  "dependencies K' = dependencies K \<Longrightarrow>
   add_dependencies_while it K' c S = add_dependencies_while it K c S"
proof (induction it K c S rule: add_dependencies_while.induct)
  case (1 it K c S)
  have l: "add_dependencies_while it K' c S =
      (if c \<noteq> card S
       then add_dependencies_while it K' (card S) (update_loop (dependencies K') (it S) S)
       else S)"
    by (rule add_dependencies_while.simps)
  have r: "add_dependencies_while it K c S =
      (if c \<noteq> card S
       then add_dependencies_while it K (card S) (update_loop (dependencies K) (it S) S)
       else S)"
    by (rule add_dependencies_while.simps)
  show ?case
  proof (cases "c = card S")
    case True
    then show ?thesis unfolding l r by simp
  next
    case False
    then show ?thesis
      unfolding l r using "1.IH" [OF False "1.prems"] "1.prems" by simp
  qed
qed

lemma without_exclusions_tables:
  "dependencies (without_exclusions K) = dependencies K"
  "dependents (without_exclusions K) = dependents K"
  "runtime_deps (without_exclusions K) = runtime_deps K"
  "test_runtimes (without_exclusions K) = test_runtimes K"
  "test_runtimes_reconfig (without_exclusions K) = test_runtimes_reconfig K"
  "check_targets (without_exclusions K) = check_targets K"
  "RUNTIMES (without_exclusions K) = RUNTIMES K"
  "META_PROJECTS (without_exclusions K) = META_PROJECTS K"
  "SKIP_PROJECTS (without_exclusions K) = SKIP_PROJECTS K"
  "SKIP_BUILD_PROJECTS (without_exclusions K) = SKIP_BUILD_PROJECTS K"
  by (simp_all add: without_exclusions_def dependencies_def dependents_def runtime_deps_def
      test_runtimes_def test_runtimes_reconfig_def check_targets_def)

lemma excluded_without_exclusions: "excluded (without_exclusions K) plat = {}"
  by (simp add: excluded_def exclusions_def without_exclusions_def)

lemma excluded_unrecognised:
  "plat \<notin> {''Linux'', ''Windows'', ''Darwin''} \<Longrightarrow> excluded K plat = {}"
  by (simp add: excluded_def exclusions_def)

lemma triggered_tests_without_exclusions:
  "plat \<noteq> ''Windows'' \<Longrightarrow>
   triggered_tests (without_exclusions K) plat' p = triggered_tests K plat p"
  by (simp add: triggered_tests_def without_exclusions_tables split: option.splits)
     (simp add: without_exclusions_def)

lemma meta_projects_loop_without_exclusions:
  "meta_projects_loop (without_exclusions K) ps metas acc = meta_projects_loop K ps metas acc"
  by (induction metas arbitrary: acc) (auto simp: without_exclusions_tables)

lemma for_file_without_exclusions:
  "get_modified_projects_for_file (without_exclusions K) f = get_modified_projects_for_file K f"
  by (simp add: get_modified_projects_for_file_def meta_projects_loop_without_exclusions
      without_exclusions_tables)

lemma get_modified_projects_without_exclusions:
  "get_modified_projects (without_exclusions K) fs = get_modified_projects K fs"
  by (simp add: get_modified_projects_eq for_file_without_exclusions)

lemma render_without_exclusions: "render it (without_exclusions K) s = render it K s"
  by (simp add: render_def render_check_targets_def without_exclusions_tables)

lemma select_projects_without_exclusions:
  assumes "plat \<notin> {''Linux'', ''Windows'', ''Darwin''}"
  shows "select_projects it (without_exclusions K) files plat' = select_projects it K files plat"
proof -
  have w: "plat \<noteq> ''Windows''" using assms by simp
  have ex: "exclude_platform_projects (without_exclusions K) S plat' =
            exclude_platform_projects K S plat" for S
    using assms
    by (simp add: exclude_platform_projects_eq excluded_without_exclusions excluded_unrecognised)
  have ptt: "compute_projects_to_test it (without_exclusions K) M plat' =
             compute_projects_to_test it K M plat" for M
    using w
    by (simp add: compute_projects_to_test_def ex projects_to_test_loop_eq
        triggered_tests_without_exclusions [OF w] without_exclusions_tables)
  have rtt: "compute_runtimes_to_test it (without_exclusions K) M plat' =
             compute_runtimes_to_test it K M plat" for M
    by (simp add: compute_runtimes_to_test_def ex without_exclusions_tables)
  have rttr: "compute_runtimes_to_test_needs_reconfig it (without_exclusions K) M plat' =
              compute_runtimes_to_test_needs_reconfig it K M plat" for M
    by (simp add: compute_runtimes_to_test_needs_reconfig_def ex without_exclusions_tables)
  have rtb: "compute_runtimes_to_build it (without_exclusions K) R M plat' =
             compute_runtimes_to_build it K R M plat" for R M
    by (simp add: compute_runtimes_to_build_def ex without_exclusions_tables)
  have deps: "add_dependencies it (without_exclusions K) P R = add_dependencies it K P R" for P R
    by (simp add: add_dependencies_def without_exclusions_tables
        add_dependencies_while_cong [OF without_exclusions_tables(1)])
  show ?thesis
    by (simp add: select_projects_def get_modified_projects_without_exclusions
        ptt rtt rttr rtb deps without_exclusions_tables split: sum.splits)
qed

lemma render_check_targets_by_target:
  "valid_order it \<Longrightarrow> finite S \<Longrightarrow> render_check_targets it K S = check_targets_by_target K S"
  by (simp add: render_check_targets_eq [of it])
     (simp add: render_check_targets_def check_targets_by_target_def)

lemma select_projects_selection_of:
  assumes "valid_order it" and "select_projects it K files plat = Inr s"
  shows "\<exists>M. finite M \<and> get_modified_projects K files = Inr M \<and> s = selection_of K M plat"
proof -
  obtain M where M: "get_modified_projects K files = Inr M" and s: "s = selection_of K M plat"
    using assms by (auto simp: select_projects_eq split: sum.splits)
  have "finite M" using M by (rule get_modified_projects_finite)
  then show ?thesis using M s by blast
qed

lemma excluded_recognised:
  "map_of (exclusions K) plat = Some ex \<Longrightarrow> excluded K plat = set ex"
  by (simp add: excluded_def)

section \<open>The claims\<close>

subsection \<open>Rendering of the check targets\<close>

text \<open>
  C1, as amended. Each of the three check-target strings is the list of the targets of the
  members of its test set that have a check target, joined by single spaces, in ascending
  order of the target names (the generator is sorted after the lookup).
\<close>

theorem check_targets_sorted_by_target:
  assumes "valid_order it"
    and "select_projects it K modified_files platform_name = Inr s"
  shows "\<exists>out. get_env_variables it K modified_files platform_name = Inr out \<and>
           map_of out ''project_check_targets''
             = Some (check_targets_by_target K (projects_to_test s)) \<and>
           map_of out ''runtimes_check_targets''
             = Some (check_targets_by_target K (runtimes_to_test s)) \<and>
           map_of out ''runtimes_check_targets_needs_reconfig''
             = Some (check_targets_by_target K (runtimes_to_test_reconfig s))"
proof -
  note fin = select_projects_finite [OF assms]
  have "get_env_variables it K modified_files platform_name = Inr (render it K s)"
    using assms(2) by (simp add: get_env_variables_def)
  moreover have "map_of (render it K s) ''project_check_targets''
      = Some (check_targets_by_target K (projects_to_test s))"
    using assms(1) fin(1) by (simp add: render_def render_check_targets_by_target)
  moreover have "map_of (render it K s) ''runtimes_check_targets''
      = Some (check_targets_by_target K (runtimes_to_test s))"
    using assms(1) fin(2) by (simp add: render_def render_check_targets_by_target)
  moreover have "map_of (render it K s) ''runtimes_check_targets_needs_reconfig''
      = Some (check_targets_by_target K (runtimes_to_test_reconfig s))"
    using assms(1) fin(3) by (simp add: render_def render_check_targets_by_target)
  ultimately show ?thesis by blast
qed

theorem check_targets_sorted_by_target_witness:
  "\<exists>out. get_env_variables (rev \<circ> sorted_list_of_set) example_tables
            [''clang/lib/CIR/CMakeLists.txt''] ''Linux'' = Inr out \<and>
         map_of out ''project_check_targets'' = Some ''check-clang check-clang-cir'' \<and>
         map_of out ''runtimes_check_targets'' = Some ''check-compiler-rt'' \<and>
         map_of out ''runtimes_check_targets_needs_reconfig'' = Some ''check-cxx''"
proof -
  have sel: "select_projects (rev \<circ> sorted_list_of_set) example_tables
      [''clang/lib/CIR/CMakeLists.txt''] ''Linux''
    = Inr \<lparr>projects_to_test = {''CIR'', ''clang''}, runtimes_to_test = {''compiler-rt''},
            runtimes_to_test_reconfig = {''libcxx''},
            runtimes_to_build = {''compiler-rt'', ''libcxx''},
            projects_to_build = {''llvm'', ''CIR'', ''mlir'', ''clang'', ''lld''}\<rparr>"
    by code_simp
  have a: "check_targets_by_target example_tables {''CIR'', ''clang''}
      = ''check-clang check-clang-cir''"
    by code_simp
  have b: "check_targets_by_target example_tables {''compiler-rt''} = ''check-compiler-rt''"
    by code_simp
  have c: "check_targets_by_target example_tables {''libcxx''} = ''check-cxx''"
    by code_simp
  show ?thesis
    using check_targets_sorted_by_target [OF valid_order_rev sel]
    unfolding selection.simps a b c .
qed

text \<open>
  C1 as stated fails: \<^verbatim>\<open>CIR\<close> sorts before \<^verbatim>\<open>clang\<close>, so ordering by project name puts
  \<^verbatim>\<open>check-clang-cir\<close> first, while the code puts \<^verbatim>\<open>check-clang\<close> first.
\<close>

theorem check_targets_by_project_counterexample:
  "select_projects sorted_list_of_set example_tables
       [''clang/lib/CIR/CMakeLists.txt''] ''Linux''
     = Inr \<lparr>projects_to_test = {''CIR'', ''clang''}, runtimes_to_test = {''compiler-rt''},
             runtimes_to_test_reconfig = {''libcxx''},
             runtimes_to_build = {''compiler-rt'', ''libcxx''},
             projects_to_build = {''llvm'', ''CIR'', ''mlir'', ''clang'', ''lld''}\<rparr> \<and>
   get_env_variables sorted_list_of_set example_tables
       [''clang/lib/CIR/CMakeLists.txt''] ''Linux''
     = Inr [(''projects_to_build'', ''CIR;clang;lld;llvm;mlir''),
            (''project_check_targets'', ''check-clang check-clang-cir''),
            (''runtimes_to_build'', ''compiler-rt;libcxx''),
            (''runtimes_check_targets'', ''check-compiler-rt''),
            (''runtimes_check_targets_needs_reconfig'', ''check-cxx''),
            (''enable_cir'', ''ON'')] \<and>
   spec_check_targets_by_project example_tables {''CIR'', ''clang''}
     = ''check-clang-cir check-clang''"
  by code_simp

subsection \<open>Platform exclusion\<close>

text \<open>
  C2, as amended. On a platform with an exclusion set, no project of that set is in
  \<open>runtimes_to_build\<close> or in any of the three test sets that the check-target strings
  render. In \<open>projects_to_build\<close> such a project can occur only as a dependency named in
  the Dependency Graph: the closure is taken after the exclusion and is not filtered.
\<close>

theorem platform_exclusion:
  assumes "valid_order it"
    and "select_projects it K modified_files platform_name = Inr s"
    and "map_of (exclusions K) platform_name = Some ex"
  shows "runtimes_to_build s \<inter> set ex = {} \<and>
         projects_to_test s \<inter> set ex = {} \<and>
         runtimes_to_test s \<inter> set ex = {} \<and>
         runtimes_to_test_reconfig s \<inter> set ex = {} \<and>
         projects_to_build s \<inter> set ex \<subseteq> Range (dep_rel K)"
proof -
  obtain M where s: "s = selection_of K M platform_name"
    using select_projects_selection_of [OF assms(1,2)] by blast
  have ex: "excluded K platform_name = set ex"
    using assms(3) by (rule excluded_recognised)
  have a: "runtimes_to_build s \<inter> set ex = {}"
    unfolding s by (auto simp: selection_of_def Let_def ex)
  have b: "projects_to_test s \<inter> set ex = {}"
    unfolding s by (auto simp: selection_of_def Let_def ex)
  have c: "runtimes_to_test s \<inter> set ex = {}"
    unfolding s by (auto simp: selection_of_def Let_def ex)
  have d: "runtimes_to_test_reconfig s \<inter> set ex = {}"
    unfolding s by (auto simp: selection_of_def Let_def ex)
  have "projects_to_build s \<subseteq> projects_to_test s \<union> Range (dep_rel K)"
    unfolding s using rtrancl_Image_subset [of "dep_rel K"]
    by (simp add: selection_of_def Let_def) blast
  then have e: "projects_to_build s \<inter> set ex \<subseteq> Range (dep_rel K)"
    using b by blast
  show ?thesis using a b c d e by blast
qed

theorem platform_exclusion_witness:
  "{''compiler-rt'', ''libcxx''} \<inter> set (EXCLUDE_LINUX example_tables) = {} \<and>
   {''llvm'', ''clang'', ''lld'', ''mlir'', ''flang''} \<inter> set (EXCLUDE_LINUX example_tables) = {} \<and>
   {''compiler-rt''} \<inter> set (EXCLUDE_LINUX example_tables) = {} \<and>
   {''libcxx''} \<inter> set (EXCLUDE_LINUX example_tables) = {} \<and>
   {''llvm'', ''mlir'', ''flang'', ''clang'', ''lld''} \<inter> set (EXCLUDE_LINUX example_tables)
     \<subseteq> Range (dep_rel example_tables)"
proof -
  have sel: "select_projects sorted_list_of_set example_tables
      [''compiler-rt/lib/asan/asan_allocator.cpp'', ''llvm/CMakeLists.txt''] ''Linux''
    = Inr \<lparr>projects_to_test = {''llvm'', ''clang'', ''lld'', ''mlir'', ''flang''},
            runtimes_to_test = {''compiler-rt''},
            runtimes_to_test_reconfig = {''libcxx''},
            runtimes_to_build = {''compiler-rt'', ''libcxx''},
            projects_to_build = {''llvm'', ''mlir'', ''flang'', ''clang'', ''lld''}\<rparr>"
    by code_simp
  have ex: "map_of (exclusions example_tables) ''Linux'' = Some (EXCLUDE_LINUX example_tables)"
    by (simp add: exclusions_def)
  show ?thesis
    using platform_exclusion [OF valid_order_sorted_list_of_set sel ex]
    unfolding selection.simps .
qed

text \<open>
  C2 as stated fails for \<open>projects_to_build\<close>: \<^verbatim>\<open>flang\<close> is excluded on \<^verbatim>\<open>Darwin\<close>, and a
  change to the runtime \<^verbatim>\<open>flang-rt\<close>, which depends on it, puts it in the build list.
\<close>

theorem platform_exclusion_counterexample:
  "map_of (exclusions example_tables) ''Darwin''
     = Some [''cross-project-tests'', ''compiler-rt'', ''libcxx'', ''flang''] \<and>
   get_env_variables sorted_list_of_set example_tables [''flang-rt/CMakeLists.txt''] ''Darwin''
     = Inr [(''projects_to_build'', ''flang''),
            (''project_check_targets'', ''''),
            (''runtimes_to_build'', ''flang-rt''),
            (''runtimes_check_targets'', ''check-flang-rt''),
            (''runtimes_check_targets_needs_reconfig'', ''''),
            (''enable_cir'', ''OFF'')] \<and>
   select_projects sorted_list_of_set example_tables [''flang-rt/CMakeLists.txt''] ''Darwin''
     = Inr \<lparr>projects_to_test = {}, runtimes_to_test = {''flang-rt''},
             runtimes_to_test_reconfig = {}, runtimes_to_build = {''flang-rt''},
             projects_to_build = {''flang''}\<rparr>"
  by code_simp

subsection \<open>Closure of the build set\<close>

text \<open>
  C3, as amended. The build set is the closure of the projects to test under the
  Dependency Graph, together with the direct dependencies of the runtimes to build, less
  the build-skip set. So every direct dependency of a project reached from the projects
  to test is in the build set unless it is skipped, and so is every direct dependency of
  a runtime to build; the dependencies of the latter are not followed further.
\<close>

theorem build_set_closure:
  assumes "valid_order it"
    and "select_projects it K modified_files platform_name = Inr s"
  shows "projects_to_build s =
           ((dep_rel K)\<^sup>* `` projects_to_test s \<union> dep_rel K `` runtimes_to_build s)
             - set (SKIP_BUILD_PROJECTS K) \<and>
         (\<forall>t p d. t \<in> projects_to_test s \<and> (t, p) \<in> (dep_rel K)\<^sup>* \<and> (p, d) \<in> dep_rel K \<and>
                    d \<notin> set (SKIP_BUILD_PROJECTS K) \<longrightarrow> d \<in> projects_to_build s) \<and>
         (\<forall>r d. r \<in> runtimes_to_build s \<and> (r, d) \<in> dep_rel K \<and>
                    d \<notin> set (SKIP_BUILD_PROJECTS K) \<longrightarrow> d \<in> projects_to_build s)"
proof -
  obtain M where s: "s = selection_of K M platform_name"
    using select_projects_selection_of [OF assms] by blast
  have eq: "projects_to_build s =
           ((dep_rel K)\<^sup>* `` projects_to_test s \<union> dep_rel K `` runtimes_to_build s)
             - set (SKIP_BUILD_PROJECTS K)"
    unfolding s by (simp add: selection_of_def Let_def)
  have closed: "d \<in> projects_to_build s"
    if "t \<in> projects_to_test s" "(t, p) \<in> (dep_rel K)\<^sup>*" "(p, d) \<in> dep_rel K"
      "d \<notin> set (SKIP_BUILD_PROJECTS K)" for t p d
  proof -
    have "(t, d) \<in> (dep_rel K)\<^sup>*" using that(2,3) by (rule rtrancl_into_rtrancl)
    then show ?thesis using that(1,4) unfolding eq by blast
  qed
  have direct: "d \<in> projects_to_build s"
    if "r \<in> runtimes_to_build s" "(r, d) \<in> dep_rel K" "d \<notin> set (SKIP_BUILD_PROJECTS K)"
    for r d
    using that unfolding eq by blast
  show ?thesis using eq closed direct by blast
qed

theorem build_set_closure_witness:
  "''llvm'' \<in> {''llvm'', ''CIR'', ''mlir'', ''clang'', ''lld''}"
proof -
  have sel: "select_projects sorted_list_of_set example_tables
      [''clang/lib/CIR/CMakeLists.txt''] ''Linux''
    = Inr \<lparr>projects_to_test = {''CIR'', ''clang''}, runtimes_to_test = {''compiler-rt''},
            runtimes_to_test_reconfig = {''libcxx''},
            runtimes_to_build = {''compiler-rt'', ''libcxx''},
            projects_to_build = {''llvm'', ''CIR'', ''mlir'', ''clang'', ''lld''}\<rparr>"
    by code_simp
  have step1: "(''CIR'', ''mlir'') \<in> dep_rel example_tables"
    by (simp add: dep_rel_def dependencies_def example_tables_def)
  have step2: "(''mlir'', ''llvm'') \<in> dep_rel example_tables"
    by (simp add: dep_rel_def dependencies_def example_tables_def)
  have reach: "(''CIR'', ''mlir'') \<in> (dep_rel example_tables)\<^sup>*"
    using step1 by (rule r_into_rtrancl)
  have noskip: "''llvm'' \<notin> set (SKIP_BUILD_PROJECTS example_tables)"
    by (simp add: example_tables_def)
  have "\<forall>t p d. t \<in> {''CIR'', ''clang''} \<and> (t, p) \<in> (dep_rel example_tables)\<^sup>* \<and>
          (p, d) \<in> dep_rel example_tables \<and> d \<notin> set (SKIP_BUILD_PROJECTS example_tables)
          \<longrightarrow> d \<in> {''llvm'', ''CIR'', ''mlir'', ''clang'', ''lld''}"
    using build_set_closure [OF valid_order_sorted_list_of_set sel]
    unfolding selection.simps by (rule conjunct1 [OF conjunct2])
  then show ?thesis using reach step2 noskip by blast
qed

text \<open>
  C3 as stated fails: a change to \<^verbatim>\<open>compiler-rt\<close> builds \<^verbatim>\<open>clang\<close> and \<^verbatim>\<open>lld\<close>, the direct
  dependencies of the runtime, but not \<^verbatim>\<open>llvm\<close>, on which \<^verbatim>\<open>clang\<close> depends and which is
  not in the build-skip set.
\<close>

theorem build_set_closure_counterexample:
  "select_projects sorted_list_of_set example_tables
       [''compiler-rt/lib/asan/asan_allocator.cpp''] ''Linux''
     = Inr \<lparr>projects_to_test = {}, runtimes_to_test = {''compiler-rt''},
             runtimes_to_test_reconfig = {}, runtimes_to_build = {''compiler-rt''},
             projects_to_build = {''clang'', ''lld''}\<rparr> \<and>
   map_of (dependencies example_tables) ''clang'' = Some [''llvm''] \<and>
   ''llvm'' \<notin> {''clang'', ''lld''} \<and>
   ''llvm'' \<notin> set (SKIP_BUILD_PROJECTS example_tables)"
  by code_simp

subsection \<open>Paths without segments\<close>

text \<open>
  C4 says that path resolution is total, also for a path without segments. The code is
  not: a path without segments (the empty string, or \<^verbatim>\<open>.\<close>) reaches \<^verbatim>\<open>path_parts[0]\<close>
  with an empty tuple and raises \<^verbatim>\<open>IndexError\<close>, unless a pattern without segments maps
  to a skip-entirely project. The exception is not caught, so the whole resolution fails.
\<close>

theorem path_without_segments_raises:
  assumes "parts modified_file = []"
    and "\<forall>(pattern, project) \<in> set (META_PROJECTS K).
           pattern = [] \<longrightarrow> project \<notin> set (SKIP_PROJECTS K)"
  shows "get_modified_projects_for_file K modified_file = Inl IndexError"
proof -
  have "\<forall>(pattern, project) \<in> set (META_PROJECTS K).
          path_matches pattern [] \<longrightarrow> project \<notin> set (SKIP_PROJECTS K)"
    using assms(2) by (auto simp: path_matches_def)
  then have "meta_projects_loop K [] (META_PROJECTS K) {} =
      Completed ({} \<union> {project. \<exists>pattern. (pattern, project) \<in> set (META_PROJECTS K) \<and>
                    path_matches pattern []})"
    by (rule meta_projects_loop_noskip)
  then show ?thesis
    using assms(1) by (simp add: get_modified_projects_for_file_def)
qed

theorem path_without_segments_raises_witness:
  "get_modified_projects_for_file example_tables '''' = Inl IndexError \<and>
   get_env_variables sorted_list_of_set example_tables [''llvm/CMakeLists.txt'', ''''] ''Linux''
     = Inl IndexError"
proof -
  have p: "parts '''' = []" by code_simp
  have m: "\<forall>(pattern, project) \<in> set (META_PROJECTS example_tables).
           pattern = [] \<longrightarrow> project \<notin> set (SKIP_PROJECTS example_tables)"
    by (simp add: example_tables_def)
  have raises: "get_modified_projects_for_file example_tables '''' = Inl IndexError"
    by (rule path_without_segments_raises [OF p m])
  have "get_modified_projects example_tables [''llvm/CMakeLists.txt'', ''''] = Inl IndexError"
    using raises by (simp add: get_modified_projects_eq)
  then have "get_env_variables sorted_list_of_set example_tables
      [''llvm/CMakeLists.txt'', ''''] ''Linux'' = Inl IndexError"
    by (simp add: get_env_variables_def select_projects_def)
  with raises show ?thesis by (rule conjI)
qed

subsection \<open>Skip-entirely projects\<close>

text \<open>
  C5. If a meta-project entry that matches the path of a file maps to a project of the
  skip-entirely set, the file resolves to the empty set, whatever its first segment is
  and whatever other entries match.
\<close>

theorem skip_project_absorbs_file:
  assumes "(pattern, project) \<in> set (META_PROJECTS K)"
    and "spec_matches pattern (parts modified_file)"
    and "project \<in> set (SKIP_PROJECTS K)"
  shows "get_modified_projects_for_file K modified_file = Inr {}"
proof -
  have "path_matches pattern (parts modified_file)"
    using assms(2) by (simp add: path_matches_iff)
  then have "meta_projects_loop K (parts modified_file) (META_PROJECTS K) {} = Returned {}"
    using assms(1,3) by (intro meta_projects_loop_skip)
  then show ?thesis by (simp add: get_modified_projects_for_file_def)
qed

theorem skip_project_absorbs_file_witness:
  "get_modified_projects_for_file example_tables ''llvm/docs/index.rst'' = Inr {}"
proof -
  have entry: "([''*'', ''docs''], ''docs'') \<in> set (META_PROJECTS example_tables)"
    by (simp add: example_tables_def)
  have "path_matches [''*'', ''docs''] (parts ''llvm/docs/index.rst'')"
    by code_simp
  then have matches: "spec_matches [''*'', ''docs''] (parts ''llvm/docs/index.rst'')"
    by (simp only: path_matches_iff)
  have skip: "''docs'' \<in> set (SKIP_PROJECTS example_tables)"
    by (simp add: example_tables_def)
  show ?thesis by (rule skip_project_absorbs_file [OF entry matches skip])
qed

subsection \<open>Resolution of a path\<close>

text \<open>
  C6. For a path with at least one segment that matches no entry of a skip-entirely
  project, the resolved set is the set of the projects of all matching meta entries
  together with the first segment of the path; the matching that the code computes is
  the rule of the specification.
\<close>

theorem resolved_projects_of_file:
  assumes "parts modified_file = first # rest"
    and "\<forall>(pattern, project) \<in> set (META_PROJECTS K).
           spec_matches pattern (parts modified_file) \<longrightarrow> project \<notin> set (SKIP_PROJECTS K)"
  shows "get_modified_projects_for_file K modified_file =
           Inr ({project. \<exists>pattern. (pattern, project) \<in> set (META_PROJECTS K) \<and>
                    spec_matches pattern (parts modified_file)} \<union> {first})
         \<and> (\<forall>pattern path. path_matches pattern path \<longleftrightarrow> spec_matches pattern path)"
proof -
  have "\<forall>(pattern, project) \<in> set (META_PROJECTS K).
          path_matches pattern (parts modified_file) \<longrightarrow> project \<notin> set (SKIP_PROJECTS K)"
    using assms(2) by (simp add: path_matches_iff)
  then have "meta_projects_loop K (parts modified_file) (META_PROJECTS K) {} =
      Completed ({} \<union> {project. \<exists>pattern. (pattern, project) \<in> set (META_PROJECTS K) \<and>
                    path_matches pattern (parts modified_file)})"
    by (rule meta_projects_loop_noskip)
  then show ?thesis
    using assms(1) by (simp add: get_modified_projects_for_file_def path_matches_iff)
qed

theorem resolved_projects_of_file_witness:
  "get_modified_projects_for_file example_tables ''clang/lib/CIR/CMakeLists.txt''
     = Inr {''CIR'', ''clang''}"
proof -
  have p: "parts ''clang/lib/CIR/CMakeLists.txt'' = ''clang'' # [''lib'', ''CIR'', ''CMakeLists.txt'']"
    by code_simp
  have "\<forall>(pattern, project) \<in> set (META_PROJECTS example_tables).
          path_matches pattern (parts ''clang/lib/CIR/CMakeLists.txt'')
            \<longrightarrow> project \<notin> set (SKIP_PROJECTS example_tables)"
    by code_simp
  then have noskip: "\<forall>(pattern, project) \<in> set (META_PROJECTS example_tables).
          spec_matches pattern (parts ''clang/lib/CIR/CMakeLists.txt'')
            \<longrightarrow> project \<notin> set (SKIP_PROJECTS example_tables)"
    by (simp only: path_matches_iff)
  have matching: "{project. \<exists>pattern. (pattern, project) \<in> set (META_PROJECTS example_tables) \<and>
        spec_matches pattern (parts ''clang/lib/CIR/CMakeLists.txt'')} = {''CIR''}"
    unfolding path_matches_iff [symmetric] p
    by (auto simp: example_tables_def path_matches_def
        intro: exI [of _ "[''clang'', ''lib'', ''CIR'']"])
  show ?thesis
    using resolved_projects_of_file [OF p noskip] unfolding matching by auto
qed

subsection \<open>Projects to test\<close>

text \<open>
  C7. Every modified project that is not a runtime contributes itself when it has a
  check target and all its dependents when it has an entry in the dependents table, the
  dependents without the Windows exclusion subset when the platform is \<^verbatim>\<open>Windows\<close>; the
  exclusion set of the platform is subtracted from the union.
\<close>

theorem projects_to_test_characterisation:
  assumes "valid_order it" and "finite modified_projects"
  shows "compute_projects_to_test it K modified_projects platform_name =
     (\<Union>p \<in> modified_projects - set (RUNTIMES K).
        (if p \<in> dom (map_of (check_targets K)) then {p} else {}) \<union>
        (case map_of (dependents K) p of
           None \<Rightarrow> {}
         | Some ds \<Rightarrow>
             if platform_name = ''Windows'' then set ds - set (EXCLUDE_DEPENDENTS_WINDOWS K)
             else set ds))
     - (case map_of (exclusions K) platform_name of None \<Rightarrow> {} | Some ex \<Rightarrow> set ex)"
  using assms
  by (simp add: compute_projects_to_test_eq triggered_tests_def excluded_def)

theorem projects_to_test_characterisation_witness:
  "compute_projects_to_test sorted_list_of_set example_tables {''llvm'', ''libcxx''} ''Windows''
     = {''clang'', ''lld'', ''llvm'', ''mlir''}"
proof -
  have fin: "finite {''llvm'', ''libcxx''}" by simp
  have "(\<Union>p \<in> {''llvm'', ''libcxx''} - set (RUNTIMES example_tables).
        (if p \<in> dom (map_of (check_targets example_tables)) then {p} else {}) \<union>
        (case map_of (dependents example_tables) p of
           None \<Rightarrow> {}
         | Some ds \<Rightarrow>
             if ''Windows'' = ''Windows''
             then set ds - set (EXCLUDE_DEPENDENTS_WINDOWS example_tables)
             else set ds))
     - (case map_of (exclusions example_tables) ''Windows'' of None \<Rightarrow> {} | Some ex \<Rightarrow> set ex)
     = {''clang'', ''lld'', ''llvm'', ''mlir''}"
    by code_simp
  then show ?thesis
    using projects_to_test_characterisation [OF valid_order_sorted_list_of_set fin,
        of example_tables "''Windows''"]
    by simp
qed

subsection \<open>Monotonicity\<close>

text \<open>
  C8. When one list of files contains every file of another, and the resolution of the
  larger list returns, then so does the resolution of the smaller, and each of the five
  sets of the larger result contains the corresponding set of the smaller result; so an
  \<^verbatim>\<open>ON\<close> flag stays \<^verbatim>\<open>ON\<close>. The iteration orders of the two runs may differ.
\<close>

theorem adding_files_is_monotone:
  assumes "valid_order it" and "valid_order it'"
    and "set modified_files \<subseteq> set modified_files'"
    and "select_projects it' K modified_files' platform_name = Inr larger"
  shows "\<exists>smaller. select_projects it K modified_files platform_name = Inr smaller \<and>
           projects_to_build smaller \<subseteq> projects_to_build larger \<and>
           runtimes_to_build smaller \<subseteq> runtimes_to_build larger \<and>
           projects_to_test smaller \<subseteq> projects_to_test larger \<and>
           runtimes_to_test smaller \<subseteq> runtimes_to_test larger \<and>
           runtimes_to_test_reconfig smaller \<subseteq> runtimes_to_test_reconfig larger \<and>
           (map_of (render it K smaller) ''enable_cir'' = Some ''ON''
              \<longrightarrow> map_of (render it' K larger) ''enable_cir'' = Some ''ON'')"
proof -
  obtain M' where M': "get_modified_projects K modified_files' = Inr M'"
    and larger: "larger = selection_of K M' platform_name"
    using assms(2,4) by (auto simp: select_projects_eq split: sum.splits)
  obtain M where M: "get_modified_projects K modified_files = Inr M" and sub: "M \<subseteq> M'"
    using get_modified_projects_mono [OF assms(3) M'] by blast
  have smaller: "select_projects it K modified_files platform_name
      = Inr (selection_of K M platform_name)"
    using assms(1) M by (simp add: select_projects_eq)
  have ptb: "projects_to_build (selection_of K M platform_name) \<subseteq> projects_to_build larger"
    unfolding larger using sub by (rule selection_of_mono)
  have cir: "map_of (render it K (selection_of K M platform_name)) ''enable_cir'' = Some ''ON''
      \<longrightarrow> map_of (render it' K larger) ''enable_cir'' = Some ''ON''"
    using ptb by (auto simp: render_def)
  show ?thesis
    using smaller ptb cir selection_of_mono(1-4) [OF sub, of K platform_name]
    unfolding larger by blast
qed

theorem adding_files_is_monotone_witness:
  "\<exists>smaller.
     select_projects sorted_list_of_set example_tables
       [''compiler-rt/lib/asan/asan_allocator.cpp''] ''Linux'' = Inr smaller \<and>
     projects_to_build smaller \<subseteq> {''llvm'', ''mlir'', ''flang'', ''clang'', ''lld''} \<and>
     runtimes_to_build smaller \<subseteq> {''compiler-rt'', ''libcxx''} \<and>
     projects_to_test smaller \<subseteq> {''llvm'', ''clang'', ''lld'', ''mlir'', ''flang''} \<and>
     runtimes_to_test smaller \<subseteq> {''compiler-rt''} \<and>
     runtimes_to_test_reconfig smaller \<subseteq> {''libcxx''}"
proof -
  have larger: "select_projects (rev \<circ> sorted_list_of_set) example_tables
      ([''compiler-rt/lib/asan/asan_allocator.cpp''] @ [''llvm/CMakeLists.txt'']) ''Linux''
    = Inr \<lparr>projects_to_test = {''llvm'', ''clang'', ''lld'', ''mlir'', ''flang''},
            runtimes_to_test = {''compiler-rt''},
            runtimes_to_test_reconfig = {''libcxx''},
            runtimes_to_build = {''compiler-rt'', ''libcxx''},
            projects_to_build = {''llvm'', ''mlir'', ''flang'', ''clang'', ''lld''}\<rparr>"
    by code_simp
  have sub: "set [''compiler-rt/lib/asan/asan_allocator.cpp'']
      \<subseteq> set ([''compiler-rt/lib/asan/asan_allocator.cpp''] @ [''llvm/CMakeLists.txt''])"
    by simp
  from adding_files_is_monotone
      [OF valid_order_sorted_list_of_set valid_order_rev sub larger]
  obtain smaller where
    "select_projects sorted_list_of_set example_tables
       [''compiler-rt/lib/asan/asan_allocator.cpp''] ''Linux'' = Inr smaller"
    "projects_to_build smaller \<subseteq> {''llvm'', ''mlir'', ''flang'', ''clang'', ''lld''}"
    "runtimes_to_build smaller \<subseteq> {''compiler-rt'', ''libcxx''}"
    "projects_to_test smaller \<subseteq> {''llvm'', ''clang'', ''lld'', ''mlir'', ''flang''}"
    "runtimes_to_test smaller \<subseteq> {''compiler-rt''}"
    "runtimes_to_test_reconfig smaller \<subseteq> {''libcxx''}"
    unfolding selection.simps by blast
  then show ?thesis by blast
qed

subsection \<open>Unrecognised platforms\<close>

text \<open>
  C9. For a platform name that is none of \<^verbatim>\<open>Linux\<close>, \<^verbatim>\<open>Windows\<close> and \<^verbatim>\<open>Darwin\<close>, nothing is
  excluded: a set passes the platform exclusion unchanged, the whole result is the result
  for the tables with every exclusion set and the Windows dependents subset emptied (on
  any platform), and the platform raises no error of its own: the call fails only when
  the resolution of the paths fails.
\<close>

theorem unrecognised_platform_excludes_nothing:
  assumes "platform_name \<notin> {''Linux'', ''Windows'', ''Darwin''}"
  shows "exclude_platform_projects K projects platform_name = projects \<and>
         get_env_variables it K modified_files platform_name =
           get_env_variables it (without_exclusions K) modified_files any_platform \<and>
         ((\<exists>e. get_env_variables it K modified_files platform_name = Inl e)
            \<longleftrightarrow> (\<exists>e. get_modified_projects K modified_files = Inl e))"
proof -
  have a: "exclude_platform_projects K projects platform_name = projects"
    using assms by (simp add: exclude_platform_projects_eq excluded_unrecognised)
  have b: "get_env_variables it K modified_files platform_name =
           get_env_variables it (without_exclusions K) modified_files any_platform"
    using select_projects_without_exclusions [OF assms, of it K modified_files any_platform]
    by (simp add: get_env_variables_def render_without_exclusions split: sum.splits)
  have c: "(\<exists>e. get_env_variables it K modified_files platform_name = Inl e)
            \<longleftrightarrow> (\<exists>e. get_modified_projects K modified_files = Inl e)"
    by (auto simp: get_env_variables_def select_projects_def Let_def split: sum.splits)
  show ?thesis using a b c by blast
qed

theorem unrecognised_platform_excludes_nothing_witness:
  "get_env_variables sorted_list_of_set example_tables [''llvm/CMakeLists.txt''] ''FreeBSD''
     = get_env_variables sorted_list_of_set (without_exclusions example_tables)
         [''llvm/CMakeLists.txt''] ''Windows''"
proof -
  have "''FreeBSD'' \<notin> {''Linux'', ''Windows'', ''Darwin''}" by simp
  from unrecognised_platform_excludes_nothing [OF this]
  show ?thesis by (rule conjunct1 [OF conjunct2])
qed

subsection \<open>Determinism\<close>

text \<open>
  C10. The output does not depend on the order in which the sets of the computation are
  iterated, the only thing that may differ between two runs on the same list of files and
  platform: the six strings, or the error, are the same.
\<close>

theorem get_env_variables_deterministic:
  assumes "valid_order it1" and "valid_order it2"
  shows "get_env_variables it1 K modified_files platform_name =
         get_env_variables it2 K modified_files platform_name"
proof -
  have sel: "select_projects it1 K modified_files platform_name =
             select_projects it2 K modified_files platform_name"
    using assms by (simp add: select_projects_eq)
  show ?thesis
  proof (cases "select_projects it1 K modified_files platform_name")
    case (Inl e)
    then show ?thesis using sel by (simp add: get_env_variables_def)
  next
    case (Inr s)
    have "render it1 K s = render sorted_list_of_set K s"
      using assms(1) select_projects_finite [OF assms(1) Inr] by (intro render_eq)
    moreover have "render it2 K s = render sorted_list_of_set K s"
      using assms(2) select_projects_finite [OF assms(1) Inr] by (intro render_eq)
    ultimately show ?thesis using Inr sel by (simp add: get_env_variables_def)
  qed
qed

theorem get_env_variables_deterministic_witness:
  "get_env_variables sorted_list_of_set example_tables
       [''clang/lib/CIR/CMakeLists.txt'', ''llvm/CMakeLists.txt''] ''Linux''
   = get_env_variables (rev \<circ> sorted_list_of_set) example_tables
       [''clang/lib/CIR/CMakeLists.txt'', ''llvm/CMakeLists.txt''] ''Linux''"
  by (rule get_env_variables_deterministic
      [OF valid_order_sorted_list_of_set valid_order_rev])

end
